theory Spec2Isabelle
  imports Complex_Main "HOL-Library.Sublist"
begin

section \<open>Readiness probing in \<open>globalSetup\<close>\<close>

text \<open>
  \<open>globalSetup\<close> polls the health endpoint before the suite starts:
  \<^verbatim>\<open>
    const maxRetries = 12;
    let retries = 0;
    let delay = 2500;
    while (retries < maxRetries) {
      try {
        const response = await page.goto('http://localhost:8000/health', ...);
        if (response && response.ok()) { break; }
      } catch (error) {
        await page.waitForTimeout(delay);
        delay = Math.min(delay * 1.5, 15000);
        retries++;
      }
    }
    if (retries >= maxRetries) { throw new Error(...); }
  \<close>
  One call of \<open>page.goto\<close> either raises, or returns a response that is ok or not ok, or
  returns \<open>null\<close>. The environment is the sequence of these outcomes, indexed by the number
  of calls made before. Delays are rationals: every value the loop can reach
  (2500, 3750, 5625, 8437.5, 12656.25, 15000) is a dyadic rational with few digits, on which
  the source's double arithmetic is exact.
\<close>

datatype goto_result = Throws string | Response bool | NullResponse

definition maxRetries :: nat where
  "maxRetries = 12"

definition initialDelay :: rat where
  "initialDelay = 2500"

definition maxDelayMs :: rat where
  "maxDelayMs = 15000"

definition nextDelay :: "rat \<Rightarrow> rat" where
  "nextDelay d = min (d * (3 / 2)) maxDelayMs"

primrec delaySeq :: "nat \<Rightarrow> rat" where
  "delaySeq 0 = initialDelay"
| "delaySeq (Suc n) = nextDelay (delaySeq n)"

record setup_state =
  retries :: nat
  delay :: rat
  gotoCalls :: nat
  sleeps :: "rat list"

definition setup_init :: setup_state where
  "setup_init = \<lparr>retries = 0, delay = initialDelay, gotoCalls = 0, sleeps = []\<rparr>"

definition responseOk :: "goto_result \<Rightarrow> bool" where
  "responseOk r = (case r of Response ok \<Rightarrow> ok | _ \<Rightarrow> False)"

partial_function (option) readinessLoop ::
  "(nat \<Rightarrow> goto_result) \<Rightarrow> setup_state \<Rightarrow> setup_state option" where
  "readinessLoop probe s =
     (if retries s < maxRetries then
        (case probe (gotoCalls s) of
           Throws msg \<Rightarrow>
             readinessLoop probe
               (s\<lparr>retries := retries s + 1, delay := nextDelay (delay s),
                  gotoCalls := gotoCalls s + 1, sleeps := sleeps s @ [delay s]\<rparr>)
         | r \<Rightarrow>
             if responseOk r then Some (s\<lparr>gotoCalls := gotoCalls s + 1\<rparr>)
             else readinessLoop probe (s\<lparr>gotoCalls := gotoCalls s + 1\<rparr>))
      else Some s)"

text \<open>
  After the loop \<open>globalSetup\<close> raises when the budget is used up and goes on to the endpoint
  checks otherwise. \<open>None\<close> is a loop that never leaves.
\<close>

definition globalSetup_ready :: "(nat \<Rightarrow> goto_result) \<Rightarrow> (string + setup_state) option" where
  "globalSetup_ready probe =
     (case readinessLoop probe setup_init of
        None \<Rightarrow> None
      | Some s \<Rightarrow>
          Some (if retries s \<ge> maxRetries
                then Inl ''Application failed to start within timeout period''
                else Inr s))"

section \<open>JavaScript values read from the page\<close>

text \<open>
  \<open>textContent()\<close> yields a string or \<open>null\<close>; \<open>parseInt\<close> yields a number or \<open>NaN\<close>.
  Texts are strings of code units below 256. The numbers \<open>parseInt\<close> can yield are the
  doubles with an integer value and the two infinities; \<open>Num k\<close> is the double of value
  \<open>k\<close>, and the two zeros are not told apart (\<open>-0 === 0\<close>, both are falsy, both print
  as \<open>0\<close>).
  \<open>parseInt\<close> follows ECMAScript with the radix left out: leading white space is skipped,
  one sign is read, a \<open>0x\<close>/\<open>0X\<close> prefix selects radix 16, the longest prefix of digits
  is the value, and no digit at all gives \<open>NaN\<close>. The value of the digits becomes a
  double: below \<open>2^53\<close> it is kept, from there on it is rounded to 53 significant bits,
  ties to the even neighbour, and what rounds to \<open>2^1024\<close> or more is infinite. (For more
  than 20 decimal digits ECMAScript leaves the last bits to the engine; the rounding here
  is the correct one, as in V8.)
\<close>

datatype jsnum = NaN | Num int | PosInfinity | NegInfinity

fun bitLength :: "nat \<Rightarrow> nat" where
  "bitLength m = (if m = 0 then 0 else Suc (bitLength (m div 2)))"

declare bitLength.simps [simp del]

definition roundHalfEven :: "nat \<Rightarrow> nat \<Rightarrow> nat" where
  "roundHalfEven m e =
     (if 2 ^ e < 2 * (m mod 2 ^ e) \<or> (2 * (m mod 2 ^ e) = 2 ^ e \<and> odd (m div 2 ^ e))
      then (m div 2 ^ e + 1) * 2 ^ e
      else (m div 2 ^ e) * 2 ^ e)"

definition toDouble :: "nat \<Rightarrow> nat option" where
  "toDouble m =
     (if m < 2 ^ 53 then Some m
      else if roundHalfEven m (bitLength m - 53) < 2 ^ 1024
      then Some (roundHalfEven m (bitLength m - 53))
      else None)"

definition isStrWhiteSpace :: "char \<Rightarrow> bool" where
  "isStrWhiteSpace c = ((of_char c :: nat) \<in> set [9, 10, 11, 12, 13, 32, 160])"

definition digitOf :: "char \<Rightarrow> nat option" where
  "digitOf c =
     (if 48 \<le> (of_char c :: nat) \<and> (of_char c :: nat) \<le> 57 then Some (of_char c - 48)
      else if 97 \<le> (of_char c :: nat) \<and> (of_char c :: nat) \<le> 122 then Some (of_char c - 87)
      else if 65 \<le> (of_char c :: nat) \<and> (of_char c :: nat) \<le> 90 then Some (of_char c - 55)
      else None)"

definition isRadixDigit :: "nat \<Rightarrow> char \<Rightarrow> bool" where
  "isRadixDigit R c = (case digitOf c of Some d \<Rightarrow> d < R | None \<Rightarrow> False)"

definition radixValue :: "nat \<Rightarrow> string \<Rightarrow> nat" where
  "radixValue R Z = foldl (\<lambda>acc c. acc * R + (case digitOf c of Some d \<Rightarrow> d | None \<Rightarrow> 0)) 0 Z"

definition parseInt :: "string \<Rightarrow> jsnum" where
  "parseInt inputString =
     (let S = dropWhile isStrWhiteSpace inputString;
          negative = (take 1 S = ''-'');
          S1 = (if take 1 S = ''+'' \<or> take 1 S = ''-'' then drop 1 S else S);
          hex = (take 2 S1 = ''0x'' \<or> take 2 S1 = ''0X'');
          R = (if hex then 16 else 10);
          S2 = (if hex then drop 2 S1 else S1);
          Z = takeWhile (isRadixDigit R) S2
      in if Z = [] then NaN
         else (case toDouble (radixValue R Z) of
                 Some v \<Rightarrow> Num ((if negative then - 1 else 1) * int v)
               | None \<Rightarrow> if negative then NegInfinity else PosInfinity))"

definition textToString :: "string option \<Rightarrow> string" where
  "textToString t = (case t of None \<Rightarrow> ''null'' | Some s \<Rightarrow> s)"

definition orZero :: "jsnum \<Rightarrow> jsnum" where
  "orZero v =
     (case v of
        NaN \<Rightarrow> Num 0
      | Num k \<Rightarrow> (if k = 0 then Num 0 else Num k)
      | PosInfinity \<Rightarrow> PosInfinity
      | NegInfinity \<Rightarrow> NegInfinity)"

definition strictEq :: "jsnum \<Rightarrow> jsnum \<Rightarrow> bool" where
  "strictEq a b =
     (case a of
        NaN \<Rightarrow> False
      | Num x \<Rightarrow> (case b of Num y \<Rightarrow> x = y | _ \<Rightarrow> False)
      | PosInfinity \<Rightarrow> (case b of PosInfinity \<Rightarrow> True | _ \<Rightarrow> False)
      | NegInfinity \<Rightarrow> (case b of NegInfinity \<Rightarrow> True | _ \<Rightarrow> False))"

text \<open>
  A template literal prints an integer below \<open>2^53\<close> in magnitude by its decimal digits.
\<close>

fun showNat :: "nat \<Rightarrow> string" where
  "showNat n = (if n < 10 then [''0123456789'' ! n]
                else showNat (n div 10) @ [''0123456789'' ! (n mod 10)])"

declare showNat.simps [simp del]

definition showInt :: "int \<Rightarrow> string" where
  "showInt i = (if i < 0 then ''-'' @ showNat (nat (- i)) else showNat (nat i))"

definition quoted :: "string \<Rightarrow> string" where
  "quoted t = [CHR 0x22] @ t @ [CHR 0x22]"

definition showNum :: "jsnum \<Rightarrow> string" where
  "showNum v =
     (case v of
        NaN \<Rightarrow> ''NaN''
      | Num k \<Rightarrow> showInt k
      | PosInfinity \<Rightarrow> ''Infinity''
      | NegInfinity \<Rightarrow> ''-Infinity'')"

section \<open>The dashboard page object\<close>

text \<open>
  What one load of the dashboard shows of a counter: the element with the counter's id
  (visible or not, and its text), and the fallback the non-zero pollers use, the label
  (\<open>Documents Indexed\<close>, \<open>Text Chunks\<close>) with the texts of the numbers beside it.
  A reload may change everything, so a session is the sequence of views, indexed by the
  number of reloads made so far. The counter elements are attached to the page: a read of
  their text resolves, with the text or with \<open>null\<close>.
\<close>

record counter_view =
  idVisible :: bool
  idText :: "string option"
  labelVisible :: bool
  labelNumbers :: "string option list"

record dashboard_view =
  docCounter :: counter_view
  chunkCounter :: counter_view

type_synonym page_loads = "nat \<Rightarrow> dashboard_view"

text \<open>
  \<^verbatim>\<open>
    async getDocumentCount() {
      const text = await this.docCount.textContent();
      return parseInt(text) || 0;
    }
  \<close>
  and the same for \<open>getChunkCount\<close> on \<open>this.chunkCount\<close>.
\<close>

definition countOfText :: "string option \<Rightarrow> jsnum" where
  "countOfText t = orZero (parseInt (textToString t))"

definition getDocumentCount :: "dashboard_view \<Rightarrow> jsnum" where
  "getDocumentCount v = countOfText (idText (docCounter v))"

definition getChunkCount :: "dashboard_view \<Rightarrow> jsnum" where
  "getChunkCount v = countOfText (idText (chunkCounter v))"

text \<open>
  \<^verbatim>\<open>
    async waitForDocumentCount(expectedCount, maxAttempts = 10, waitTime = 2000) {
      for (let attempt = 1; attempt <= maxAttempts; attempt++) {
        const currentCount = await this.getDocumentCount();
        if (currentCount === expectedCount) { return currentCount; }
        if (attempt < maxAttempts) {
          await this.page.waitForTimeout(waitTime);
          await this.page.reload();
          await this.page.waitForLoadState('networkidle', { timeout: 60000 });
        }
      }
      throw new Error(`Document count did not reach ${expectedCount} after ${maxAttempts} attempts`);
    }
  \<close>
  The trace counts the reads and the reloads and lists the waits.
\<close>

record poll_trace =
  reads :: nat
  reloads :: nat
  slept :: "nat list"

definition didNotReach :: "int \<Rightarrow> nat \<Rightarrow> string" where
  "didNotReach expectedCount maxAttempts =
     ''Document count did not reach '' @ showInt expectedCount @ '' after ''
       @ showNat maxAttempts @ '' attempts''"

function waitForDocumentCount_loop ::
  "page_loads \<Rightarrow> int \<Rightarrow> nat \<Rightarrow> nat \<Rightarrow> nat \<Rightarrow> poll_trace \<Rightarrow> (string + jsnum) \<times> poll_trace" where
  "waitForDocumentCount_loop loads expectedCount maxAttempts waitTime attempt tr =
     (if attempt \<le> maxAttempts then
        (if strictEq (getDocumentCount (loads (reloads tr))) (Num expectedCount)
         then (Inr (getDocumentCount (loads (reloads tr))), tr\<lparr>reads := reads tr + 1\<rparr>)
         else waitForDocumentCount_loop loads expectedCount maxAttempts waitTime (attempt + 1)
                (if attempt < maxAttempts
                 then tr\<lparr>reads := reads tr + 1, reloads := reloads tr + 1,
                         slept := slept tr @ [waitTime]\<rparr>
                 else tr\<lparr>reads := reads tr + 1\<rparr>))
      else (Inl (didNotReach expectedCount maxAttempts), tr))"
  by pat_completeness auto
termination
  by (relation "measure (\<lambda>(loads, e, maxAttempts, w, attempt, tr). maxAttempts + 1 - attempt)") auto

definition waitForDocumentCount ::
  "page_loads \<Rightarrow> poll_trace \<Rightarrow> int \<Rightarrow> nat \<Rightarrow> nat \<Rightarrow> (string + jsnum) \<times> poll_trace" where
  "waitForDocumentCount loads tr expectedCount maxAttempts waitTime =
     waitForDocumentCount_loop loads expectedCount maxAttempts waitTime 1 tr"

definition fresh_trace :: poll_trace where
  "fresh_trace = \<lparr>reads = 0, reloads = 0, slept = []\<rparr>"

declare waitForDocumentCount_loop.simps [simp del]

text \<open>
  \<^verbatim>\<open>
    async waitForNonZeroDocumentCount(maxAttempts = 40, waitTime = 3000) {
      let documentCountValue = "0";
      let indexedCountNum = 0;
      let attempts = 0;
      while (indexedCountNum === 0 && attempts < maxAttempts) {
        attempts++;
        const documentCountElement = this.page.locator('#docCount').first();
        if (await documentCountElement.isVisible()) {
          documentCountValue = await documentCountElement.textContent();
          indexedCountNum = parseInt(documentCountValue);
        } else {
          const documentIndexedText = this.page.locator('text=/Documents Indexed/i').first();
          if (await documentIndexedText.isVisible()) {
            const parent = documentIndexedText.locator('..');
            const numbers = parent.locator('text=/\\d+/');
            if (await numbers.count() > 0) {
              documentCountValue = await numbers.first().textContent();
              indexedCountNum = parseInt(documentCountValue);
            }
          }
        }
        if (indexedCountNum === 0 && attempts < maxAttempts) {
          await this.page.waitForTimeout(waitTime);
          await this.page.reload({ timeout: 60000 });
          await this.page.waitForLoadState('networkidle', { timeout: 60000 });
        }
      }
      console.log(`Final document count after ${attempts} attempts: "${documentCountValue}" (parsed: ${indexedCountNum})`);
      if (indexedCountNum === 0) {
        throw new Error(`Document count did not become non-zero after ${maxAttempts} attempts`);
      }
      return indexedCountNum;
    }
  \<close>
  Of the console only the line after the loop is kept.
\<close>

record nz_state =
  documentCountValue :: "string option"
  indexedCountNum :: jsnum
  attempts :: nat
  pageLoads :: nat
  waits :: "nat list"

definition readCounter :: "counter_view \<Rightarrow> string option \<times> jsnum \<Rightarrow> string option \<times> jsnum" where
  "readCounter c cur =
     (if idVisible c then (idText c, parseInt (textToString (idText c)))
      else if labelVisible c then
        (case labelNumbers c of
           [] \<Rightarrow> cur
         | t # _ \<Rightarrow> (t, parseInt (textToString t)))
      else cur)"

definition nonZeroAttempt :: "page_loads \<Rightarrow> nat \<Rightarrow> nat \<Rightarrow> nz_state \<Rightarrow> nz_state" where
  "nonZeroAttempt loads maxAttempts waitTime s =
     (case readCounter (docCounter (loads (pageLoads s))) (documentCountValue s, indexedCountNum s) of
        (v, n) \<Rightarrow>
          (if strictEq n (Num 0) \<and> attempts s + 1 < maxAttempts
           then s\<lparr>documentCountValue := v, indexedCountNum := n, attempts := attempts s + 1,
                   pageLoads := pageLoads s + 1, waits := waits s @ [waitTime]\<rparr>
           else s\<lparr>documentCountValue := v, indexedCountNum := n, attempts := attempts s + 1\<rparr>))"

function waitForNonZeroDocumentCount_loop :: "page_loads \<Rightarrow> nat \<Rightarrow> nat \<Rightarrow> nz_state \<Rightarrow> nz_state" where
  "waitForNonZeroDocumentCount_loop loads maxAttempts waitTime s =
     (if strictEq (indexedCountNum s) (Num 0) \<and> attempts s < maxAttempts
      then waitForNonZeroDocumentCount_loop loads maxAttempts waitTime
             (nonZeroAttempt loads maxAttempts waitTime s)
      else s)"
  by pat_completeness auto
termination
  by (relation "measure (\<lambda>(loads, maxAttempts, w, s). maxAttempts - attempts s)")
     (auto simp: nonZeroAttempt_def split: prod.splits)

declare waitForNonZeroDocumentCount_loop.simps [simp del]

definition nz_init :: "nat \<Rightarrow> nz_state" where
  "nz_init p = \<lparr>documentCountValue = Some ''0'', indexedCountNum = Num 0, attempts = 0,
                pageLoads = p, waits = []\<rparr>"

definition finalLine :: "nz_state \<Rightarrow> string" where
  "finalLine s =
     ''Final document count after '' @ showNat (attempts s) @ '' attempts: ''
       @ quoted (textToString (documentCountValue s)) @ '' (parsed: ''
       @ showNum (indexedCountNum s) @ '')''"

definition didNotBecomeNonZero :: "nat \<Rightarrow> string" where
  "didNotBecomeNonZero maxAttempts =
     ''Document count did not become non-zero after '' @ showNat maxAttempts @ '' attempts''"

record nz_result =
  outcome :: "string + jsnum"
  console :: string
  final :: nz_state

definition waitForNonZeroDocumentCount :: "page_loads \<Rightarrow> nat \<Rightarrow> nat \<Rightarrow> nat \<Rightarrow> nz_result" where
  "waitForNonZeroDocumentCount loads p maxAttempts waitTime =
     (let s = waitForNonZeroDocumentCount_loop loads maxAttempts waitTime (nz_init p)
      in \<lparr>outcome = (if strictEq (indexedCountNum s) (Num 0)
                      then Inl (didNotBecomeNonZero maxAttempts)
                      else Inr (indexedCountNum s)),
           console = finalLine s,
           final = s\<rparr>)"

text \<open>A dashboard on which both counters are visible and show the given texts.\<close>

definition countersShow :: "string \<Rightarrow> string \<Rightarrow> dashboard_view" where
  "countersShow d c =
     \<lparr>docCounter = \<lparr>idVisible = True, idText = Some d, labelVisible = True, labelNumbers = [Some d]\<rparr>,
      chunkCounter = \<lparr>idVisible = True, idText = Some c, labelVisible = True, labelNumbers = [Some c]\<rparr>\<rparr>"

subsection \<open>TC001, steps 5 and 6\<close>

text \<open>
  \<^verbatim>\<open>
    // Step 5: Verify document count is 0
    const docCount = await userJourney.dashboardPage.waitForDocumentCount(0, 1);
    console.log(`Step 5: Document count verified as ${docCount} (1 attempt)`);
    // Step 6: Verify chunks count is 0
    const chunkCount = await userJourney.dashboardPage.waitForDocumentCount(0, 1);
    console.log(`Step 6: Chunks count verified as ${chunkCount} (1 attempt)`);
  \<close>
  The result is the pair of values the two log lines report, or the error that ends the test.
\<close>

definition tc001_verifyCounts :: "page_loads \<Rightarrow> poll_trace \<Rightarrow> (string + jsnum \<times> jsnum) \<times> poll_trace" where
  "tc001_verifyCounts loads tr =
     (case waitForDocumentCount loads tr 0 1 2000 of
        (Inl e, tr1) \<Rightarrow> (Inl e, tr1)
      | (Inr docCount, tr1) \<Rightarrow>
          (case waitForDocumentCount loads tr1 0 1 2000 of
             (Inl e, tr2) \<Rightarrow> (Inl e, tr2)
           | (Inr chunkCount, tr2) \<Rightarrow> (Inr (docCount, chunkCount), tr2)))"

section \<open>The chat component\<close>

text \<open>
  \<^verbatim>\<open>
    async clickAskButton() {
      const isEnabled = await this.askButton.isEnabled();
      if (!isEnabled) {
        console.log('Ask button is disabled - cannot click');
        return false;
      }
      await this.askButton.click();
      return true;
    }

    async askQuestion(question) {
      await this.page.waitForLoadState('networkidle');
      await this.page.waitForTimeout(2000);
      await this.fillQuestion(question);
      const clicked = await this.clickAskButton();
      return clicked;
    }
  \<close>
  The page decides from the text in the question input whether the ask button is enabled.
  A click on a disabled button is what the browser capability refuses: it waits for the
  button to become enabled and raises at its timeout.
\<close>

record chat_page =
  questionValue :: string
  askEnabledFor :: "string \<Rightarrow> bool"
  askClicks :: nat
  chatConsole :: "string list"

definition isEnabled :: "chat_page \<Rightarrow> bool" where
  "isEnabled p = askEnabledFor p (questionValue p)"

definition askButton_click :: "chat_page \<Rightarrow> string + chat_page" where
  "askButton_click p =
     (if isEnabled p then Inr (p\<lparr>askClicks := askClicks p + 1\<rparr>)
      else Inl ''locator.click: Timeout exceeded'')"

definition fillQuestion :: "string \<Rightarrow> chat_page \<Rightarrow> chat_page" where
  "fillQuestion question p = p\<lparr>questionValue := question\<rparr>"

definition clickAskButton :: "chat_page \<Rightarrow> string + bool \<times> chat_page" where
  "clickAskButton p =
     (if \<not> isEnabled p
      then Inr (False, p\<lparr>chatConsole := chatConsole p @ [''Ask button is disabled - cannot click'']\<rparr>)
      else (case askButton_click p of
              Inl e \<Rightarrow> Inl e
            | Inr p' \<Rightarrow> Inr (True, p')))"

definition askQuestion :: "string \<Rightarrow> chat_page \<Rightarrow> string + bool \<times> chat_page" where
  "askQuestion question p =
     (case clickAskButton (fillQuestion question p) of
        Inl e \<Rightarrow> Inl e
      | Inr (clicked, p') \<Rightarrow> Inr (clicked, p'))"

section \<open>Resolving an element through a list of selectors\<close>

text \<open>
  A call into the browser returns or raises. A page answers, for a selector, whether its
  first match is visible and what its text is; \<open>clickableCount\<close> is the number of matches of
  the last strategy of \<open>loadSampleData\<close>.
\<close>

datatype 'a awaited = Returned 'a | Raised string

record ui_page =
  isVisible :: "string \<Rightarrow> bool awaited"
  textContent :: "string \<Rightarrow> string option"
  clickableCount :: nat

datatype locator = First string | ClickableWithText

text \<open>
  \<^verbatim>\<open>
    async getAssistantAnswer() {
      const selectors = [
        '.assistant p:first-of-type',
        '.message.assistant p:first-of-type',
        '.bubble.assistant p:first-of-type'
      ];
      for (const selector of selectors) {
        try {
          const element = this.page.locator(selector).first();
          if (await element.isVisible()) { return element; }
        } catch (error) { }
      }
      return null;
    }
  \<close>
  Every loop also returns the selectors it asked about, in order.
\<close>

fun firstVisibleOrSkip :: "ui_page \<Rightarrow> string list \<Rightarrow> string list \<Rightarrow> string option \<times> string list" where
  "firstVisibleOrSkip pg [] asked = (None, asked)"
| "firstVisibleOrSkip pg (selector # rest) asked =
     (case isVisible pg selector of
        Returned True \<Rightarrow> (Some selector, asked @ [selector])
      | Returned False \<Rightarrow> firstVisibleOrSkip pg rest (asked @ [selector])
      | Raised e \<Rightarrow> firstVisibleOrSkip pg rest (asked @ [selector]))"

definition assistantAnswerSelectors :: "string list" where
  "assistantAnswerSelectors =
     [''.assistant p:first-of-type'',
      ''.message.assistant p:first-of-type'',
      ''.bubble.assistant p:first-of-type'']"

definition getAssistantAnswer :: "ui_page \<Rightarrow> string option \<times> string list" where
  "getAssistantAnswer pg = firstVisibleOrSkip pg assistantAnswerSelectors []"

text \<open>
  \<open>loadSampleData\<close> looks for its button in three rounds:
  \<^verbatim>\<open>
    for (const selector of exactMatches) {
      const button = this.page.locator(selector).first();
      if (await button.isVisible()) { loadSampleDataButton = button; break; }
    }
    if (!loadSampleDataButton) {
      for (const selector of buttonSelectors) {
        const button = this.page.locator(selector).first();
        if (await button.isVisible()) {
          const buttonText = await button.textContent();
          if (buttonText && /sample|load|data/i.test(buttonText)) {
            loadSampleDataButton = button; break;
          }
        }
      }
    }
    if (!loadSampleDataButton) {
      const clickableElements = this.page.locator('button, a, [role="button"], [onclick]')
        .filter({ hasText: /sample|load|data/i });
      if (await clickableElements.count() > 0) { loadSampleDataButton = clickableElements.first(); }
    }
    if (!loadSampleDataButton) { throw new Error('Load Sample Data button not found. ...'); }
  \<close>
  These loops have no \<open>try\<close>: a raise of \<open>isVisible\<close> ends \<open>loadSampleData\<close>.
\<close>

fun firstVisible :: "ui_page \<Rightarrow> string list \<Rightarrow> string list \<Rightarrow> (string + string option) \<times> string list" where
  "firstVisible pg [] asked = (Inr None, asked)"
| "firstVisible pg (selector # rest) asked =
     (case isVisible pg selector of
        Returned True \<Rightarrow> (Inr (Some selector), asked @ [selector])
      | Returned False \<Rightarrow> firstVisible pg rest (asked @ [selector])
      | Raised e \<Rightarrow> (Inl e, asked @ [selector]))"

definition lowerAscii :: "char \<Rightarrow> char" where
  "lowerAscii c =
     (if 65 \<le> (of_char c :: nat) \<and> (of_char c :: nat) \<le> 90 then char_of (of_char c + 32 :: nat) else c)"

definition sampleLoadData :: "string \<Rightarrow> bool" where
  "sampleLoadData t =
     (sublist ''sample'' (map lowerAscii t) \<or> sublist ''load'' (map lowerAscii t)
      \<or> sublist ''data'' (map lowerAscii t))"

definition buttonTextMatches :: "string option \<Rightarrow> bool" where
  "buttonTextMatches buttonText =
     (case buttonText of None \<Rightarrow> False | Some t \<Rightarrow> t \<noteq> [] \<and> sampleLoadData t)"

fun firstVisibleWithText ::
  "ui_page \<Rightarrow> string list \<Rightarrow> string list \<Rightarrow> (string + string option) \<times> string list" where
  "firstVisibleWithText pg [] asked = (Inr None, asked)"
| "firstVisibleWithText pg (selector # rest) asked =
     (case isVisible pg selector of
        Returned True \<Rightarrow>
          if buttonTextMatches (textContent pg selector)
          then (Inr (Some selector), asked @ [selector])
          else firstVisibleWithText pg rest (asked @ [selector])
      | Returned False \<Rightarrow> firstVisibleWithText pg rest (asked @ [selector])
      | Raised e \<Rightarrow> (Inl e, asked @ [selector]))"

definition exactMatches :: "string list" where
  "exactMatches =
     [''text=/load sample data/i'', ''text=/sample data/i'',
      ''text=/load sample/i'', ''text=/load.*sample/i'']"

definition buttonSelectors :: "string list" where
  "buttonSelectors =
     [''button:has-text('' @ quoted ''Load'' @ '')'',
      ''button:has-text('' @ quoted ''Sample'' @ '')'',
      ''button:has-text('' @ quoted ''Data'' @ '')'',
      ''[data-testid*='' @ quoted ''sample'' @ '']'',
      ''[data-testid*='' @ quoted ''load'' @ '']'',
      ''[class*='' @ quoted ''sample'' @ '']'',
      ''[class*='' @ quoted ''load'' @ '']'']"

definition buttonNotFound :: string where
  "buttonNotFound = ''Load Sample Data button not found. Check if the button exists on the page.''"

definition findLoadSampleDataButton :: "ui_page \<Rightarrow> (string + locator) \<times> string list" where
  "findLoadSampleDataButton pg =
     (case firstVisible pg exactMatches [] of
        (Inl e, asked) \<Rightarrow> (Inl e, asked)
      | (Inr (Some selector), asked) \<Rightarrow> (Inr (First selector), asked)
      | (Inr None, asked) \<Rightarrow>
          (case firstVisibleWithText pg buttonSelectors asked of
             (Inl e, asked2) \<Rightarrow> (Inl e, asked2)
           | (Inr (Some selector), asked2) \<Rightarrow> (Inr (First selector), asked2)
           | (Inr None, asked2) \<Rightarrow>
               if clickableCount pg > 0 then (Inr ClickableWithText, asked2)
               else (Inl buttonNotFound, asked2)))"

section \<open>The dialog listener of \<open>clearIndex\<close>\<close>

text \<open>
  \<^verbatim>\<open>
    async clearIndex() {
      await this.switchToIndexTab();
      this.page.on('dialog', async dialog => {
        console.log(`Dialog appeared: ${dialog.message()}`);
        await dialog.accept();
      });
      await this.clearButton.click();
      ...
    }
  \<close>
  \<open>page.on\<close> is the event emitter's \<open>on\<close>: it appends the listener to the listeners of the
  event and never looks for one that is already there; an event calls every listener, in the
  order of registration. The session keeps the listeners, the prompt the application raises
  when the clear button is clicked (if it raises one), and, for every prompt raised so far,
  what the listeners did with it. The polling for the success banner that follows the click
  touches neither listeners nor prompts and is left out.
\<close>

datatype dialog_listener = LogAndAccept

datatype dialog_action = Logged string | Accept

record session =
  listeners :: "dialog_listener list"
  clearPrompt :: "string option"
  prompts :: "dialog_action list list"

definition page_on_dialog :: "dialog_listener \<Rightarrow> session \<Rightarrow> session" where
  "page_on_dialog l s = s\<lparr>listeners := listeners s @ [l]\<rparr>"

fun runListener :: "dialog_listener \<Rightarrow> string \<Rightarrow> dialog_action list" where
  "runListener LogAndAccept message = [Logged (''Dialog appeared: '' @ message), Accept]"

definition emitDialog :: "string \<Rightarrow> session \<Rightarrow> session" where
  "emitDialog message s =
     s\<lparr>prompts := prompts s @ [concat (map (\<lambda>l. runListener l message) (listeners s))]\<rparr>"

definition clearButton_click :: "session \<Rightarrow> session" where
  "clearButton_click s = (case clearPrompt s of None \<Rightarrow> s | Some message \<Rightarrow> emitDialog message s)"

definition clearIndex :: "session \<Rightarrow> session" where
  "clearIndex s = clearButton_click (page_on_dialog LogAndAccept s)"

definition acceptsPerPrompt :: "session \<Rightarrow> nat list" where
  "acceptsPerPrompt s = map (\<lambda>acts. length (filter (\<lambda>a. a = Accept) acts)) (prompts s)"

definition newPage :: "string option \<Rightarrow> session" where
  "newPage prompt = \<lparr>listeners = [], clearPrompt = prompt, prompts = []\<rparr>"

section \<open>TC004: selecting every model\<close>

text \<open>
  For each model the test runs
  \<^verbatim>\<open>
    try {
      await modelSelector.selectOption(model.value, { timeout: 30000 });
      let messageFound = false;
      for (let attempt = 1; attempt <= 15; attempt++) {
        try {
          await page.waitForLoadState('domcontentloaded', { timeout: 200 });
          if (await confirmationMessage.isVisible({ timeout: 500 })) {
            const messageText = await confirmationMessage.textContent();
            messageFound = true; successCount++; break;
          }
        } catch (error) { }
        if (attempt < 15) { await page.waitForTimeout(500); }
      }
      if (!messageFound) {
        try {
          await page.waitForTimeout(2000);
          const currentValue = await modelSelector.inputValue();
          if (currentValue === model.value) { messageFound = true; successCount++; }
        } catch (_) {}
      }
      if (!messageFound) { failureCount++; }
      if (i < models.length - 1) { await page.waitForTimeout(1000); }
    } catch (error) {
      console.log(`Error testing model ${model.value}: ${error.message}`);
      failureCount++;
      if (error.message.includes('Target page, context or browser has been closed') ||
          error.message.includes('Test timeout') ||
          error.message.includes('page.waitForTimeout') ||
          error.message.includes('locator.selectOption')) {
        try {
          await page.waitForTimeout(2000);
          await page.reload();
          await page.waitForLoadState('networkidle', { timeout: 60000 });
          modelSelector = page.locator('select#modelSelect, ...').first();
          await modelSelector.waitFor({ state: 'visible', timeout: 15000 });
        } catch (recoveryError) {
          console.log(`Recovery failed: ${recoveryError.message}`);
          break;
        }
      }
    }
  \<close>
  and after the loop raises when \<open>failureCount > 0\<close>. A \<open>model_run\<close> holds what each call
  into the browser does while one model is tested. \<open>confirmation k\<close> is the inner
  \<open>try\<close> of attempt \<open>k\<close> as a whole: \<open>Returned True\<close> when the message was seen and read,
  \<open>Raised\<close> (swallowed by the inner \<open>catch\<close>) or \<open>Returned False\<close> otherwise.
\<close>

datatype tc_event =
    SelectOption string
  | ConfirmationNotFound string
  | ErrorTestingModel string string
  | Reload
  | ReacquireSelector
  | RecoveryFailed string

record model_run =
  selectOption :: "unit awaited"
  confirmation :: "nat \<Rightarrow> bool awaited"
  pollSleep :: "nat \<Rightarrow> unit awaited"
  fallbackValue :: "string awaited"
  switchDelay :: "unit awaited"
  recoverWait :: "unit awaited"
  recoverReload :: "unit awaited"
  recoverLoadState :: "unit awaited"
  recoverWaitFor :: "unit awaited"

record tc004_state =
  successCount :: nat
  failureCount :: nat
  events :: "tc_event list"

function confirmLoop :: "model_run \<Rightarrow> nat \<Rightarrow> string + bool" where
  "confirmLoop run attempt =
     (if attempt \<le> 15 then
        (case confirmation run attempt of
           Returned True \<Rightarrow> Inr True
         | _ \<Rightarrow>
             if attempt < 15 then
               (case pollSleep run attempt of
                  Raised e \<Rightarrow> Inl e
                | Returned _ \<Rightarrow> confirmLoop run (attempt + 1))
             else confirmLoop run (attempt + 1))
      else Inr False)"
  by pat_completeness auto
termination
  by (relation "measure (\<lambda>(run, attempt). 16 - attempt)") auto

declare confirmLoop.simps [simp del]

definition fallbackConfirms :: "model_run \<Rightarrow> string \<Rightarrow> bool" where
  "fallbackConfirms run v = (case fallbackValue run of Returned currentValue \<Rightarrow> currentValue = v | Raised _ \<Rightarrow> False)"

definition recordVerdict :: "string \<Rightarrow> bool \<Rightarrow> tc004_state \<Rightarrow> tc004_state" where
  "recordVerdict v messageFound st =
     (if messageFound then st\<lparr>successCount := successCount st + 1\<rparr>
      else st\<lparr>failureCount := failureCount st + 1, events := events st @ [ConfirmationNotFound v]\<rparr>)"

definition tryBody :: "model_run \<Rightarrow> string \<Rightarrow> bool \<Rightarrow> tc004_state \<Rightarrow> string option \<times> tc004_state" where
  "tryBody run v notLast st =
     (case selectOption run of
        Raised e \<Rightarrow> (Some e, st\<lparr>events := events st @ [SelectOption v]\<rparr>)
      | Returned _ \<Rightarrow>
          (case confirmLoop run 1 of
             Inl e \<Rightarrow> (Some e, st\<lparr>events := events st @ [SelectOption v]\<rparr>)
           | Inr seen \<Rightarrow>
               (if notLast then
                  (case switchDelay run of
                     Raised e \<Rightarrow>
                       (Some e, recordVerdict v (seen \<or> fallbackConfirms run v)
                                  (st\<lparr>events := events st @ [SelectOption v]\<rparr>))
                   | Returned _ \<Rightarrow>
                       (None, recordVerdict v (seen \<or> fallbackConfirms run v)
                                (st\<lparr>events := events st @ [SelectOption v]\<rparr>)))
                else (None, recordVerdict v (seen \<or> fallbackConfirms run v)
                              (st\<lparr>events := events st @ [SelectOption v]\<rparr>)))))"

definition isRecoverable :: "string \<Rightarrow> bool" where
  "isRecoverable message =
     (sublist ''Target page, context or browser has been closed'' message
      \<or> sublist ''Test timeout'' message
      \<or> sublist ''page.waitForTimeout'' message
      \<or> sublist ''locator.selectOption'' message)"

definition recover :: "model_run \<Rightarrow> tc004_state \<Rightarrow> bool \<times> tc004_state" where
  "recover run st =
     (case recoverWait run of
        Raised e \<Rightarrow> (False, st\<lparr>events := events st @ [RecoveryFailed e]\<rparr>)
      | Returned _ \<Rightarrow>
          (case recoverReload run of
             Raised e \<Rightarrow> (False, st\<lparr>events := events st @ [Reload, RecoveryFailed e]\<rparr>)
           | Returned _ \<Rightarrow>
               (case recoverLoadState run of
                  Raised e \<Rightarrow> (False, st\<lparr>events := events st @ [Reload, RecoveryFailed e]\<rparr>)
                | Returned _ \<Rightarrow>
                    (case recoverWaitFor run of
                       Raised e \<Rightarrow>
                         (False, st\<lparr>events := events st @ [Reload, ReacquireSelector, RecoveryFailed e]\<rparr>)
                     | Returned _ \<Rightarrow>
                         (True, st\<lparr>events := events st @ [Reload, ReacquireSelector]\<rparr>)))))"

definition catchBlock :: "model_run \<Rightarrow> string \<Rightarrow> string \<Rightarrow> tc004_state \<Rightarrow> bool \<times> tc004_state" where
  "catchBlock run v message st =
     (if isRecoverable message
      then recover run (st\<lparr>failureCount := failureCount st + 1,
                           events := events st @ [ErrorTestingModel v message]\<rparr>)
      else (True, st\<lparr>failureCount := failureCount st + 1,
                      events := events st @ [ErrorTestingModel v message]\<rparr>))"

definition testModel :: "model_run \<Rightarrow> string \<Rightarrow> bool \<Rightarrow> tc004_state \<Rightarrow> bool \<times> tc004_state" where
  "testModel run v notLast st =
     (case tryBody run v notLast st of
        (None, st1) \<Rightarrow> (True, st1)
      | (Some message, st1) \<Rightarrow> catchBlock run v message st1)"

fun testModels :: "(string \<times> model_run) list \<Rightarrow> tc004_state \<Rightarrow> tc004_state" where
  "testModels [] st = st"
| "testModels ((v, run) # rest) st =
     (case testModel run v (rest \<noteq> []) st of
        (True, st1) \<Rightarrow> testModels rest st1
      | (False, st1) \<Rightarrow> st1)"

datatype tc004_error = NotFullySuccessful nat nat nat

definition tc004_selectModels :: "(string \<times> model_run) list \<Rightarrow> (tc004_error + unit) \<times> tc004_state" where
  "tc004_selectModels models =
     (let st = testModels models \<lparr>successCount = 0, failureCount = 0, events = []\<rparr>
      in (if failureCount st > 0
          then Inl (NotFullySuccessful (successCount st) (length models) (failureCount st))
          else Inr (),
          st))"

section \<open>Concrete environments\<close>

text \<open>
  The inputs at which the statements below are evaluated: a health endpoint that answers
  every request with a response that is not ok (a 503, say); a dashboard that shows the same
  counters after every reload; a dashboard whose counters turn from 0 to 3 documents
  and 12 chunks at the \<open>n\<close>-th reload; a page given by its visible elements and their
  texts; a run of one model in which \<open>selectOption\<close> raises and every other call returns,
  one in which every call returns and the confirmation is seen at the first look, and one
  in which only the wait before the next model raises.
\<close>

definition alwaysNotOk :: "nat \<Rightarrow> goto_result" where
  "alwaysNotOk i = Response False"

definition alwaysRefused :: "nat \<Rightarrow> goto_result" where
  "alwaysRefused i = Throws ''page.goto: net::ERR_CONNECTION_REFUSED''"

definition steady :: "dashboard_view \<Rightarrow> page_loads" where
  "steady v i = v"

definition indexedAfter :: "nat \<Rightarrow> page_loads" where
  "indexedAfter n i = (if i < n then countersShow ''0'' ''0'' else countersShow ''3'' ''12'')"

definition pageShowing :: "(string \<times> string) list \<Rightarrow> ui_page" where
  "pageShowing shown =
     \<lparr>isVisible = (\<lambda>selector. Returned (map_of shown selector \<noteq> None)),
      textContent = map_of shown,
      clickableCount = 0\<rparr>"

definition selectRaises :: "string \<Rightarrow> model_run" where
  "selectRaises message =
     \<lparr>selectOption = Raised message,
      confirmation = (\<lambda>k. Returned True),
      pollSleep = (\<lambda>k. Returned ()),
      fallbackValue = Raised ''unused'',
      switchDelay = Returned (),
      recoverWait = Returned (),
      recoverReload = Returned (),
      recoverLoadState = Returned (),
      recoverWaitFor = Returned ()\<rparr>"

definition selectSucceeds :: model_run where
  "selectSucceeds =
     \<lparr>selectOption = Returned (),
      confirmation = (\<lambda>k. Returned True),
      pollSleep = (\<lambda>k. Returned ()),
      fallbackValue = Raised ''unused'',
      switchDelay = Returned (),
      recoverWait = Returned (),
      recoverReload = Returned (),
      recoverLoadState = Returned (),
      recoverWaitFor = Returned ()\<rparr>"

definition delayRaises :: "string \<Rightarrow> model_run" where
  "delayRaises message = selectSucceeds\<lparr>switchDelay := Raised message\<rparr>"

definition askPage :: "bool \<Rightarrow> chat_page" where
  "askPage enabledWhenFilled =
     \<lparr>questionValue = [], askEnabledFor = (\<lambda>q. q \<noteq> [] \<and> enabledWhenFilled),
      askClicks = 0, chatConsole = []\<rparr>"

section \<open>Properties of the readiness probing\<close>

lemma delaySeq_ge: "2500 \<le> delaySeq n"
  by (induction n) (simp_all add: initialDelay_def nextDelay_def maxDelayMs_def)

lemma delaySeq_le: "delaySeq n \<le> maxDelayMs"
  by (cases n) (simp_all add: initialDelay_def nextDelay_def maxDelayMs_def)

lemma delaySeq_step: "delaySeq n \<le> delaySeq (Suc n)"
  using delaySeq_ge[of n] delaySeq_le[of n] by (simp add: nextDelay_def)

text \<open>
  Claim C4. The delays of the readiness loop, \<open>delay(0) = 2500\<close> and
  \<open>delay(n+1) = min(delay(n) * 1.5, 15000)\<close>, never decrease, and none exceeds 15000.
\<close>

theorem delaySeq_nondecreasing_bounded:
  "delaySeq n \<le> delaySeq (n + k) \<and> delaySeq n \<le> maxDelayMs"
proof
  show "delaySeq n \<le> delaySeq (n + k)"
  proof (induction k)
    case 0 show ?case by simp
  next
    case (Suc k)
    have "delaySeq (n + k) \<le> delaySeq (Suc (n + k))" by (rule delaySeq_step)
    with Suc show ?case by simp
  qed
  show "delaySeq n \<le> maxDelayMs" by (rule delaySeq_le)
qed

theorem delaySeq_nondecreasing_bounded_witness:
  "delaySeq 3 \<le> delaySeq (3 + 2) \<and> delaySeq 3 \<le> maxDelayMs"
  using delaySeq_nondecreasing_bounded[of 3 2] by simp

lemma delaySeq_values:
  "map delaySeq [0..<7] = [2500, 3750, 5625, 16875 / 2, 50625 / 4, 15000, 15000]"
  by (simp add: upt_conv_Cons initialDelay_def nextDelay_def maxDelayMs_def numeral_eq_Suc del: upt_Suc)

text \<open>
  A probe that raises every time uses up the budget: twelve calls, a sleep after each with
  the delays above, then the error.
\<close>

lemma throws_run:
  assumes "\<forall>i. \<exists>m. probe i = Throws m"
  shows "retries s + n = maxRetries \<Longrightarrow> readinessLoop probe s =
     Some (s\<lparr>retries := maxRetries, delay := (nextDelay ^^ n) (delay s),
              gotoCalls := gotoCalls s + n,
              sleeps := sleeps s @ map (\<lambda>k. (nextDelay ^^ k) (delay s)) [0..<n]\<rparr>)"
proof (induction n arbitrary: s)
  case 0
  then have "retries s = maxRetries" by simp
  then show ?case by (subst readinessLoop.simps) simp
next
  case (Suc n)
  then have lt: "retries s < maxRetries" by simp
  obtain m where m: "probe (gotoCalls s) = Throws m" using assms by blast
  let ?s' = "s\<lparr>retries := retries s + 1, delay := nextDelay (delay s),
                  gotoCalls := gotoCalls s + 1, sleeps := sleeps s @ [delay s]\<rparr>"
  have n: "retries ?s' + n = maxRetries" using Suc(2) by simp
  have sh: "map (\<lambda>k. (nextDelay ^^ k) (delay s)) [Suc 0..<Suc n]
            = map (\<lambda>k. (nextDelay ^^ k) (nextDelay (delay s))) [0..<n]"
    by (simp only: map_Suc_upt[symmetric] map_map comp_def funpow_Suc_right)
  have "readinessLoop probe s = readinessLoop probe ?s'"
    by (subst readinessLoop.simps) (simp add: lt m)
  also note Suc(1)[OF n]
  finally show ?case
    by (simp add: funpow_swap1 upt_conv_Cons sh del: upt_Suc)
qed

lemma delaySeq_funpow: "delaySeq n = (nextDelay ^^ n) initialDelay"
  by (induction n) simp_all

lemma raising_probe_exhausts:
  assumes "\<forall>i. \<exists>m. probe i = Throws m"
  shows "readinessLoop probe setup_init =
           Some \<lparr>retries = 12, delay = delaySeq 12, gotoCalls = 12, sleeps = map delaySeq [0..<12]\<rparr>"
    and "globalSetup_ready probe = Some (Inl ''Application failed to start within timeout period'')"
proof -
  show l: "readinessLoop probe setup_init =
           Some \<lparr>retries = 12, delay = delaySeq 12, gotoCalls = 12, sleeps = map delaySeq [0..<12]\<rparr>"
    using throws_run[OF assms, of setup_init 12]
    by (simp add: setup_init_def maxRetries_def delaySeq_funpow del: upt_Suc funpow.simps)
  show "globalSetup_ready probe = Some (Inl ''Application failed to start within timeout period'')"
    by (simp add: globalSetup_ready_def l maxRetries_def)
qed

lemma refused_connection_exhausts:
  "globalSetup_ready alwaysRefused = Some (Inl ''Application failed to start within timeout period'')"
  by (rule raising_probe_exhausts) (simp add: alwaysRefused_def)

text \<open>
  A response that is not ok does not raise, so the \<open>catch\<close> block, the only place where
  \<open>retries\<close> grows, is not entered: when no call ever raises or is ok, the loop can only be
  left with the budget already spent.
\<close>

lemma quiet_failure_exit:
  assumes "readinessLoop probe s = Some t"
  shows "(\<forall>i. probe i = Response False \<or> probe i = NullResponse) \<longrightarrow> maxRetries \<le> retries s"
proof (rule readinessLoop.raw_induct
    [where P = "\<lambda>probe s t. (\<forall>i. probe i = Response False \<or> probe i = NullResponse)
                   \<longrightarrow> maxRetries \<le> retries s", OF _ assms])
  fix f :: "(nat \<Rightarrow> goto_result) \<Rightarrow> setup_state \<Rightarrow> setup_state option"
  fix probe s t
  assume IH: "\<And>p b y. f p b = Some y \<Longrightarrow>
      (\<forall>i. p i = Response False \<or> p i = NullResponse) \<longrightarrow> maxRetries \<le> retries b"
  assume body: "(if retries s < maxRetries then
        (case probe (gotoCalls s) of
           Throws msg \<Rightarrow>
             f probe
               (s\<lparr>retries := retries s + 1, delay := nextDelay (delay s),
                  gotoCalls := gotoCalls s + 1, sleeps := sleeps s @ [delay s]\<rparr>)
         | r \<Rightarrow>
             if responseOk r then Some (s\<lparr>gotoCalls := gotoCalls s + 1\<rparr>)
             else f probe (s\<lparr>gotoCalls := gotoCalls s + 1\<rparr>))
      else Some s) = Some t"
  show "(\<forall>i. probe i = Response False \<or> probe i = NullResponse) \<longrightarrow> maxRetries \<le> retries s"
  proof
    assume np: "\<forall>i. probe i = Response False \<or> probe i = NullResponse"
    show "maxRetries \<le> retries s"
    proof (rule ccontr)
      assume "\<not> maxRetries \<le> retries s"
      then have lt: "retries s < maxRetries" by simp
      from np have "probe (gotoCalls s) = Response False \<or> probe (gotoCalls s) = NullResponse"
        by blast
      then have "f probe (s\<lparr>gotoCalls := gotoCalls s + 1\<rparr>) = Some t"
        using body lt by (auto simp: responseOk_def)
      from IH[OF this] np have "maxRetries \<le> retries (s\<lparr>gotoCalls := gotoCalls s + 1\<rparr>)" by blast
      with lt show False by simp
    qed
  qed
qed

text \<open>
  Claim C2 says that the readiness loop makes at most twelve probes and then reports failure,
  also when the probe returns a response that is not ok without raising. On the health
  endpoint that always answers with such a response the loop of \<open>globalSetup\<close> never ends:
  it neither counts the attempt nor sleeps, and the error after the loop is never raised.
\<close>

theorem readiness_loop_never_leaves_on_not_ok:
  "readinessLoop alwaysNotOk setup_init = None \<and> globalSetup_ready alwaysNotOk = None"
proof -
  have "readinessLoop alwaysNotOk setup_init = None"
  proof (cases "readinessLoop alwaysNotOk setup_init")
    case None then show ?thesis .
  next
    case (Some t)
    from quiet_failure_exit[OF this] have "maxRetries \<le> retries setup_init"
      by (simp add: alwaysNotOk_def)
    then show ?thesis by (simp add: maxRetries_def setup_init_def)
  qed
  then show ?thesis by (simp add: globalSetup_ready_def)
qed

section \<open>Properties of the counters\<close>

text \<open>The decimal rendering of a natural number is read back as that number.\<close>

lemma digit_char: "d < 10 \<Longrightarrow> digitOf (''0123456789'' ! d) = Some d"
proof -
  assume "d < 10"
  then have "d \<in> {0,1,2,3,4,5,6,7,8,9}" by auto
  then show ?thesis by (auto simp: digitOf_def)
qed

lemma digit_char_ws: "d < 10 \<Longrightarrow> \<not> isStrWhiteSpace (''0123456789'' ! d)"
proof -
  assume "d < 10"
  then have "d \<in> {0,1,2,3,4,5,6,7,8,9}" by auto
  then show ?thesis by (auto simp: isStrWhiteSpace_def)
qed

lemma showNat_digits: "c \<in> set (showNat n) \<Longrightarrow> \<exists>d<10. c = ''0123456789'' ! d"
proof (induction n arbitrary: c rule: showNat.induct)
  case (1 n)
  show ?case
  proof (cases "n < 10")
    case True
    with "1.prems" have "c = ''0123456789'' ! n" by (subst (asm) showNat.simps) simp
    with True show ?thesis by blast
  next
    case False
    with "1.prems" have "c \<in> set (showNat (n div 10)) \<or> c = ''0123456789'' ! (n mod 10)"
      by (subst (asm) showNat.simps) auto
    then show ?thesis
    proof
      assume "c \<in> set (showNat (n div 10))"
      with "1.IH"[OF False] show ?thesis by blast
    next
      assume "c = ''0123456789'' ! (n mod 10)"
      moreover have "n mod 10 < 10" by simp
      ultimately show ?thesis by blast
    qed
  qed
qed

lemma showNat_nonempty: "showNat n \<noteq> []"
  by (subst showNat.simps) simp

lemma radixValue_snoc:
  "radixValue R (Z @ [c]) = radixValue R Z * R + (case digitOf c of Some d \<Rightarrow> d | None \<Rightarrow> 0)"
  by (simp add: radixValue_def)

lemma radixValue_showNat: "radixValue 10 (showNat n) = n"
proof (induction n rule: showNat.induct)
  case (1 n)
  show ?case
  proof (cases "n < 10")
    case True
    then have "showNat n = [''0123456789'' ! n]" by (subst showNat.simps) simp
    then show ?thesis using digit_char[OF True] by (simp add: radixValue_def)
  next
    case False
    then have s: "showNat n = showNat (n div 10) @ [''0123456789'' ! (n mod 10)]"
      by (subst showNat.simps) simp
    have "digitOf (''0123456789'' ! (n mod 10)) = Some (n mod 10)"
      by (rule digit_char) simp
    then show ?thesis using "1.IH"[OF False] by (simp only: s radixValue_snoc) simp
  qed
qed

lemma parseInt_showNat:
  assumes small: "n < 2 ^ 53"
  shows "parseInt (showNat n) = Num (int n)"
proof -
  let ?S = "showNat n"
  obtain c cs where S: "?S = c # cs" using showNat_nonempty[of n] by (cases ?S) auto
  have dig: "\<And>x. x \<in> set ?S \<Longrightarrow> \<exists>d<10. x = ''0123456789'' ! d" by (rule showNat_digits)
  have all10: "\<And>x. x \<in> set ?S \<Longrightarrow> isRadixDigit 10 x"
    using dig digit_char by (fastforce simp: isRadixDigit_def)
  have nws: "\<And>x. x \<in> set ?S \<Longrightarrow> \<not> isStrWhiteSpace x"
    using dig digit_char_ws by blast
  have d1: "dropWhile isStrWhiteSpace ?S = ?S" using nws S by simp
  have c10: "isRadixDigit 10 c" using all10 S by simp
  have nosign: "c \<noteq> CHR ''-''" "c \<noteq> CHR ''+''"
    using c10 by (auto simp: isRadixDigit_def digitOf_def)
  have nohex: "take 2 ?S \<noteq> ''0x''" "take 2 ?S \<noteq> ''0X''"
  proof -
    have "\<not> isRadixDigit 10 CHR ''x''" "\<not> isRadixDigit 10 CHR ''X''"
      by (simp_all add: isRadixDigit_def digitOf_def)
    moreover have "\<And>x. x \<in> set (take 2 ?S) \<Longrightarrow> isRadixDigit 10 x"
      using all10 by (meson in_set_takeD)
    ultimately show "take 2 ?S \<noteq> ''0x''" "take 2 ?S \<noteq> ''0X''" by fastforce+
  qed
  have tw: "takeWhile (isRadixDigit 10) ?S = ?S" using all10 by (simp add: takeWhile_eq_all_conv)
  have t1: "take 1 ?S = [c]" using S by simp
  show ?thesis
    unfolding parseInt_def Let_def d1 t1
    using nosign nohex showNat_nonempty[of n] small
    by (simp add: radixValue_showNat tw toDouble_def)
qed

lemmas js_eval = countOfText_def textToString_def orZero_def parseInt_def isStrWhiteSpace_def
  isRadixDigit_def digitOf_def radixValue_def toDouble_def strictEq_def Let_def showNat.simps

lemma countOfText_examples:
  "countOfText None = Num 0"
  "countOfText (Some []) = Num 0"
  "countOfText (Some ''abc'') = Num 0"
  "countOfText (Some ''N/A'') = Num 0"
  "countOfText (Some ''12abc'') = Num 12"
  "countOfText (Some '' 42 '') = Num 42"
  "countOfText (Some ''-7'') = Num (- 7)"
  "countOfText (Some ''0x1F'') = Num 31"
  by (simp_all add: js_eval)

lemma doubles_round_example:
  "countOfText (Some ''9007199254740993'') = Num 9007199254740992"
  by (simp add: countOfText_def textToString_def orZero_def parseInt_def isStrWhiteSpace_def
      isRadixDigit_def digitOf_def radixValue_def Let_def toDouble_def roundHalfEven_def
      bitLength.simps)

lemma orZero_cases: "orZero x = (if x = NaN then Num 0 else x)"
  by (cases x) (simp_all add: orZero_def)

text \<open>
  Claim C9. Whatever the text of the counter elements is (empty, \<open>null\<close>, not a number),
  \<open>getDocumentCount\<close> and \<open>getChunkCount\<close> return a number and never \<open>NaN\<close>: what
  \<open>parseInt\<close> reads when it reads a number, and 0 otherwise. A counter that shows the
  decimal digits of a number below \<open>2^53\<close> is read as that number; from \<open>2^53 + 1\<close>
  on the number read is the nearest double.
\<close>

theorem counts_are_numbers:
  "getDocumentCount v \<noteq> NaN \<and> getChunkCount v \<noteq> NaN
   \<and> getDocumentCount v =
       (if parseInt (textToString (idText (docCounter v))) = NaN then Num 0
        else parseInt (textToString (idText (docCounter v))))
   \<and> getChunkCount v =
       (if parseInt (textToString (idText (chunkCounter v))) = NaN then Num 0
        else parseInt (textToString (idText (chunkCounter v))))
   \<and> (n < 2 ^ 53 \<and> m < 2 ^ 53 \<longrightarrow>
        getDocumentCount (countersShow (showNat n) (showNat m)) = Num (int n)
        \<and> getChunkCount (countersShow (showNat n) (showNat m)) = Num (int m))"
proof -
  have "countOfText (Some (showNat k)) = Num (int k)" if "k < 2 ^ 53" for k
    using that by (simp add: countOfText_def textToString_def parseInt_showNat orZero_cases)
  then show ?thesis
    by (simp add: getDocumentCount_def getChunkCount_def countersShow_def)
       (simp add: countOfText_def orZero_cases)
qed

theorem counts_are_numbers_witness:
  "getDocumentCount (countersShow ''12abc'' ''N/A'') = Num 12
   \<and> getChunkCount (countersShow ''12abc'' ''N/A'') = Num 0
   \<and> getDocumentCount (countersShow (showNat 40) (showNat 7)) = Num 40
   \<and> getChunkCount (countersShow (showNat 40) (showNat 7)) = Num 7"
  using counts_are_numbers[of "countersShow ''12abc'' ''N/A''" 40 7]
  by (simp add: countersShow_def textToString_def parseInt_def isStrWhiteSpace_def isRadixDigit_def
      digitOf_def radixValue_def toDouble_def Let_def)

section \<open>Properties of the pollers\<close>






lemma success_loop:
  assumes hit: "strictEq (getDocumentCount (loads (reloads tr + n))) (Num e)"
  shows "a + n \<le> N \<Longrightarrow> 1 \<le> a \<Longrightarrow>
     \<forall>j<n. \<not> strictEq (getDocumentCount (loads (reloads tr + j))) (Num e) \<Longrightarrow>
     waitForDocumentCount_loop loads e N w a tr =
       (Inr (getDocumentCount (loads (reloads tr + n))),
        tr\<lparr>reads := reads tr + n + 1, reloads := reloads tr + n,
           slept := slept tr @ replicate n w\<rparr>)"
  using hit
proof (induction n arbitrary: a tr)
  case 0
  then show ?case by (subst waitForDocumentCount_loop.simps) simp
next
  case (Suc n)
  let ?tr = "tr\<lparr>reads := reads tr + 1, reloads := reloads tr + 1, slept := slept tr @ [w]\<rparr>"
  from Suc.prems have lt: "a < N" and miss: "\<not> strictEq (getDocumentCount (loads (reloads tr))) (Num e)"
    by auto
  have step: "waitForDocumentCount_loop loads e N w a tr
        = waitForDocumentCount_loop loads e N w (a + 1) ?tr"
    using miss lt by (subst waitForDocumentCount_loop.simps) simp
  have le: "(a + 1) + n \<le> N" "1 \<le> a + 1" using Suc.prems by auto
  have rest: "\<forall>j<n. \<not> strictEq (getDocumentCount (loads (reloads ?tr + j))) (Num e)"
    using Suc.prems(3) by auto
  have hit': "strictEq (getDocumentCount (loads (reloads ?tr + n))) (Num e)"
    using Suc.prems(4) by simp
  from Suc.IH[OF le rest hit'] step show ?case
    by (simp add: replicate_app_Cons_same)
qed

lemma strictEq_Num: "strictEq v (Num e) \<longleftrightarrow> v = Num e"
  by (cases v) (simp_all add: strictEq_def)

lemma success_doc:
  assumes "1 \<le> k" "k \<le> N"
    and "\<forall>j<k - 1. \<not> strictEq (getDocumentCount (loads j)) (Num e)"
    and "strictEq (getDocumentCount (loads (k - 1))) (Num e)"
  shows "waitForDocumentCount loads fresh_trace e N w =
           (Inr (Num e), \<lparr>reads = k, reloads = k - 1, slept = replicate (k - 1) w\<rparr>)"
proof -
  have a: "1 + (k - 1) \<le> N" using assms by simp
  have "waitForDocumentCount_loop loads e N w 1 fresh_trace =
       (Inr (getDocumentCount (loads (reloads fresh_trace + (k - 1)))),
        fresh_trace\<lparr>reads := reads fresh_trace + (k - 1) + 1, reloads := reloads fresh_trace + (k - 1),
           slept := slept fresh_trace @ replicate (k - 1) w\<rparr>)"
    by (rule success_loop[OF _ a]) (use assms in \<open>simp_all add: fresh_trace_def\<close>)
  then show ?thesis using assms(1,4)
    by (simp add: waitForDocumentCount_def fresh_trace_def strictEq_Num)
qed

lemma readCounter_snd: "snd (readCounter c (v, n)) = snd (readCounter c (v', n))"
  by (simp add: readCounter_def split: list.splits)

lemma readCounter_found:
  "snd (readCounter c (v, Num 0)) \<noteq> Num 0 \<Longrightarrow> readCounter c cur = readCounter c (v, Num 0)"
  by (auto simp: readCounter_def split: list.splits if_splits)





lemma nz_success_loop:
  assumes hit: "\<not> strictEq (snd (readCounter (docCounter (loads (pageLoads s + n))) (None, Num 0))) (Num 0)"
  shows "attempts s + n < N \<Longrightarrow> indexedCountNum s = Num 0 \<Longrightarrow>
     \<forall>j<n. strictEq (snd (readCounter (docCounter (loads (pageLoads s + j))) (None, Num 0))) (Num 0) \<Longrightarrow>
     (let r = waitForNonZeroDocumentCount_loop loads N w s in
       (documentCountValue r, indexedCountNum r)
          = readCounter (docCounter (loads (pageLoads s + n))) (None, Num 0) \<and>
       attempts r = attempts s + n + 1 \<and>
       pageLoads r = pageLoads s + n \<and> waits r = waits s @ replicate n w)"
  using hit
proof (induction n arbitrary: s)
  case 0
  let ?s = "nonZeroAttempt loads N w s"
  let ?c = "docCounter (loads (pageLoads s))"
  have nz: "snd (readCounter ?c (None, Num 0)) \<noteq> Num 0"
    using "0.prems"(4) by (simp add: strictEq_Num)
  have rc: "readCounter ?c (documentCountValue s, indexedCountNum s) = readCounter ?c (None, Num 0)"
    by (rule readCounter_found[OF nz])
  obtain v m where vm: "readCounter ?c (None, Num 0) = (v, m)"
    by (cases "readCounter ?c (None, Num 0)")
  have m: "\<not> strictEq m (Num 0)" using "0.prems"(4) vm by simp
  have s': "?s = s\<lparr>documentCountValue := v, indexedCountNum := m, attempts := attempts s + 1\<rparr>"
    using rc vm m by (simp add: nonZeroAttempt_def)
  have stop: "waitForNonZeroDocumentCount_loop loads N w ?s = ?s"
    using m by (subst waitForNonZeroDocumentCount_loop.simps) (simp add: s')
  have "waitForNonZeroDocumentCount_loop loads N w s = waitForNonZeroDocumentCount_loop loads N w ?s"
    using "0.prems"(1,2) by (subst waitForNonZeroDocumentCount_loop.simps) (simp add: strictEq_def)
  with stop show ?case using vm by (simp add: s')
next
  case (Suc n)
  let ?s = "nonZeroAttempt loads N w s"
  let ?c = "docCounter (loads (pageLoads s))"
  obtain v m where rc: "readCounter ?c (documentCountValue s, indexedCountNum s) = (v, m)"
    by (cases "readCounter ?c (documentCountValue s, indexedCountNum s)")
  have "strictEq (snd (readCounter ?c (None, Num 0))) (Num 0)"
    using Suc.prems(3) by auto
  then have m: "m = Num 0"
    using rc Suc.prems(2) readCounter_snd[of ?c "documentCountValue s" "Num 0" None]
    by (simp add: strictEq_Num)
  have lt: "attempts s + 1 < N" using Suc.prems(1) by simp
  have s': "?s = s\<lparr>documentCountValue := v, indexedCountNum := Num 0, attempts := attempts s + 1,
                   pageLoads := pageLoads s + 1, waits := waits s @ [w]\<rparr>"
    using rc m lt by (simp add: nonZeroAttempt_def strictEq_def)
  have step: "waitForNonZeroDocumentCount_loop loads N w s = waitForNonZeroDocumentCount_loop loads N w ?s"
    using lt Suc.prems(2) by (subst waitForNonZeroDocumentCount_loop.simps) (simp add: strictEq_def)
  have p1: "attempts ?s + n < N" using Suc.prems(1) by (simp add: s')
  have p2: "indexedCountNum ?s = Num 0" by (simp add: s')
  have p3: "\<forall>j<n. strictEq (snd (readCounter (docCounter (loads (pageLoads ?s + j))) (None, Num 0))) (Num 0)"
    using Suc.prems(3) by (auto simp: s')
  have p4: "\<not> strictEq (snd (readCounter (docCounter (loads (pageLoads ?s + n))) (None, Num 0))) (Num 0)"
    using Suc.prems(4) by (simp add: s')
  from Suc.IH[OF p1 p2 p3 p4] show ?case
    unfolding step by (simp add: s' Let_def replicate_app_Cons_same)
qed



lemma nz_success:
  assumes "1 \<le> k" "k \<le> N"
    and "\<forall>j<k - 1. strictEq (snd (readCounter (docCounter (loads (p + j))) (None, Num 0))) (Num 0)"
    and "\<not> strictEq (snd (readCounter (docCounter (loads (p + (k - 1)))) (None, Num 0))) (Num 0)"
  shows "outcome (waitForNonZeroDocumentCount loads p N w)
           = Inr (snd (readCounter (docCounter (loads (p + (k - 1)))) (None, Num 0)))
     \<and> attempts (final (waitForNonZeroDocumentCount loads p N w)) = k
     \<and> pageLoads (final (waitForNonZeroDocumentCount loads p N w)) = p + (k - 1)
     \<and> waits (final (waitForNonZeroDocumentCount loads p N w)) = replicate (k - 1) w"
proof -
  let ?r = "waitForNonZeroDocumentCount_loop loads N w (nz_init p)"
  have a: "attempts (nz_init p) + (k - 1) < N" using assms(1,2) by (simp add: nz_init_def)
  have b: "indexedCountNum (nz_init p) = Num 0" by (simp add: nz_init_def)
  have c: "\<forall>j<k - 1. strictEq (snd (readCounter (docCounter (loads (pageLoads (nz_init p) + j))) (None, Num 0))) (Num 0)"
    using assms(3) by (simp add: nz_init_def)
  have d: "\<not> strictEq (snd (readCounter (docCounter (loads (pageLoads (nz_init p) + (k - 1)))) (None, Num 0))) (Num 0)"
    using assms(4) by (simp add: nz_init_def)
  have r: "(documentCountValue ?r, indexedCountNum ?r)
          = readCounter (docCounter (loads (p + (k - 1)))) (None, Num 0)"
     "attempts ?r = k" "pageLoads ?r = p + (k - 1)" "waits ?r = replicate (k - 1) w"
    using nz_success_loop[OF d a b c, of w] assms(1) by (simp_all add: Let_def nz_init_def)
  have "indexedCountNum ?r = snd (readCounter (docCounter (loads (p + (k - 1)))) (None, Num 0))"
    using r(1) by (metis snd_conv)
  then show ?thesis using r(2,3,4) assms(4)
    by (simp add: waitForNonZeroDocumentCount_def Let_def)
qed


lemma replicate_two: "replicate 2 x = [x, x]"
  by (simp add: numeral_2_eq_2)



text \<open>
  Claim C3. When the \<open>k\<close>-th read is the first that satisfies the predicate and
  \<open>k \<le> N\<close>, both pollers return the value after exactly \<open>k\<close> reads and
  \<open>k - 1\<close> waits and reloads: none follows the read that satisfies. The \<open>k\<close>-th read
  sees the page after \<open>k - 1\<close> reloads.
\<close>

theorem poll_success_on_kth_read:
  assumes "1 \<le> k" and "k \<le> N"
  shows "((\<forall>j<k - 1. \<not> strictEq (getDocumentCount (loads j)) (Num e))
          \<and> strictEq (getDocumentCount (loads (k - 1))) (Num e) \<longrightarrow>
        waitForDocumentCount loads fresh_trace e N w =
          (Inr (Num e), \<lparr>reads = k, reloads = k - 1, slept = replicate (k - 1) w\<rparr>))
   \<and> ((\<forall>j<k - 1. strictEq (snd (readCounter (docCounter (loads j)) (None, Num 0))) (Num 0))
          \<and> \<not> strictEq (snd (readCounter (docCounter (loads (k - 1))) (None, Num 0))) (Num 0) \<longrightarrow>
        outcome (waitForNonZeroDocumentCount loads 0 N w)
          = Inr (snd (readCounter (docCounter (loads (k - 1))) (None, Num 0)))
        \<and> attempts (final (waitForNonZeroDocumentCount loads 0 N w)) = k
        \<and> pageLoads (final (waitForNonZeroDocumentCount loads 0 N w)) = k - 1
        \<and> waits (final (waitForNonZeroDocumentCount loads 0 N w)) = replicate (k - 1) w)"
proof (intro conjI impI)
  assume "(\<forall>j<k - 1. \<not> strictEq (getDocumentCount (loads j)) (Num e))
          \<and> strictEq (getDocumentCount (loads (k - 1))) (Num e)"
  then show "waitForDocumentCount loads fresh_trace e N w =
          (Inr (Num e), \<lparr>reads = k, reloads = k - 1, slept = replicate (k - 1) w\<rparr>)"
    using success_doc[OF assms, of loads e w] by blast
next
  assume h: "(\<forall>j<k - 1. strictEq (snd (readCounter (docCounter (loads j)) (None, Num 0))) (Num 0))
          \<and> \<not> strictEq (snd (readCounter (docCounter (loads (k - 1))) (None, Num 0))) (Num 0)"
  have r: "outcome (waitForNonZeroDocumentCount loads 0 N w)
           = Inr (snd (readCounter (docCounter (loads (0 + (k - 1)))) (None, Num 0)))
     \<and> attempts (final (waitForNonZeroDocumentCount loads 0 N w)) = k
     \<and> pageLoads (final (waitForNonZeroDocumentCount loads 0 N w)) = 0 + (k - 1)
     \<and> waits (final (waitForNonZeroDocumentCount loads 0 N w)) = replicate (k - 1) w"
    by (rule nz_success[OF assms]) (use h in simp_all)
  from r show "outcome (waitForNonZeroDocumentCount loads 0 N w)
          = Inr (snd (readCounter (docCounter (loads (k - 1))) (None, Num 0)))" by simp
  from r show "attempts (final (waitForNonZeroDocumentCount loads 0 N w)) = k" by simp
  from r show "pageLoads (final (waitForNonZeroDocumentCount loads 0 N w)) = k - 1" by simp
  from r show "waits (final (waitForNonZeroDocumentCount loads 0 N w)) = replicate (k - 1) w" by simp
qed

theorem poll_success_on_kth_read_witness:
  "waitForDocumentCount (indexedAfter 2) fresh_trace 3 5 2000 =
      (Inr (Num 3), \<lparr>reads = 3, reloads = 2, slept = [2000, 2000]\<rparr>)
   \<and> outcome (waitForNonZeroDocumentCount (indexedAfter 2) 0 5 3000) = Inr (Num 3)
   \<and> attempts (final (waitForNonZeroDocumentCount (indexedAfter 2) 0 5 3000)) = 3
   \<and> pageLoads (final (waitForNonZeroDocumentCount (indexedAfter 2) 0 5 3000)) = 2
   \<and> waits (final (waitForNonZeroDocumentCount (indexedAfter 2) 0 5 3000)) = [3000, 3000]"
proof -
  have k: "(1::nat) \<le> 3" "(3::nat) \<le> 5" by simp_all
  have a: "(\<forall>j<3 - 1. \<not> strictEq (getDocumentCount (indexedAfter 2 j)) (Num 3))
           \<and> strictEq (getDocumentCount (indexedAfter 2 (3 - 1))) (Num 3)"
    by (simp add: js_eval getDocumentCount_def countersShow_def indexedAfter_def)
  have b: "(\<forall>j<3 - 1. strictEq (snd (readCounter (docCounter (indexedAfter 2 j)) (None, Num 0))) (Num 0))
           \<and> \<not> strictEq (snd (readCounter (docCounter (indexedAfter 2 (3 - 1))) (None, Num 0))) (Num 0)"
    by (simp add: js_eval countersShow_def readCounter_def indexedAfter_def)
  have c: "snd (readCounter (docCounter (indexedAfter 2 2)) (None, Num 0)) = Num 3"
    by (simp add: js_eval countersShow_def readCounter_def indexedAfter_def)
  show ?thesis
    using poll_success_on_kth_read[OF k, of "indexedAfter 2" 3 2000] a
          poll_success_on_kth_read[OF k, of "indexedAfter 2" 3 3000] b
    by (simp add: c replicate_two)
qed

text \<open>
  For the non-zero poller a text that is no number satisfies the predicate as well:
  \<open>NaN === 0\<close> is false, so the loop ends and \<open>NaN\<close> is returned.
\<close>

lemma nonZero_returns_NaN:
  "outcome (waitForNonZeroDocumentCount (steady (countersShow ''N/A'' ''0'')) 0 40 3000) = Inr NaN"
proof -
  have k: "(1::nat) \<le> 1" "(1::nat) \<le> 40" by simp_all
  show ?thesis
    using nz_success[OF k, of "steady (countersShow ''N/A'' ''0'')" 0 3000]
    by (simp add: js_eval countersShow_def readCounter_def steady_def)
qed

subsection \<open>TC001\<close>

lemma one_attempt:
  "waitForDocumentCount loads tr e (Suc 0) w =
     (if strictEq (getDocumentCount (loads (reloads tr))) (Num e)
      then (Inr (getDocumentCount (loads (reloads tr))), tr\<lparr>reads := reads tr + 1\<rparr>)
      else (Inl (didNotReach e (Suc 0)), tr\<lparr>reads := reads tr + 1\<rparr>))"
  unfolding waitForDocumentCount_def
  by (subst waitForDocumentCount_loop.simps, subst waitForDocumentCount_loop.simps) simp

lemma tc001_ignores_chunks:
  assumes "\<forall>i. docCounter (loads i) = docCounter (loads' i)"
  shows "tc001_verifyCounts loads tr = tc001_verifyCounts loads' tr"
  using assms by (simp add: tc001_verifyCounts_def one_attempt getDocumentCount_def)

text \<open>
  Claim C7 says that TC001 checks the document counter and the chunk counter to be 0.
  Step 6 calls \<open>waitForDocumentCount\<close> a second time, so the document counter is read
  twice and the chunk counter not at all: on a dashboard with 0 documents and 5 chunks both
  steps pass and the test reports 0 chunks.
\<close>

theorem tc001_never_reads_chunk_counter:
  "tc001_verifyCounts (steady (countersShow ''0'' ''5'')) fresh_trace
     = (Inr (Num 0, Num 0), \<lparr>reads = 2, reloads = 0, slept = []\<rparr>)
   \<and> getChunkCount (countersShow ''0'' ''5'') = Num 5"
  by (simp add: tc001_verifyCounts_def one_attempt steady_def fresh_trace_def js_eval
      getDocumentCount_def getChunkCount_def countersShow_def)

section \<open>Properties of the chat component\<close>

text \<open>
  Claim C10. \<open>clickAskButton\<close> clicks exactly when the ask button is enabled and then returns
  true; when the button is disabled it clicks nothing, writes a line to the console and
  returns false. It never raises. \<open>askQuestion\<close> returns what \<open>clickAskButton\<close> returns on
  the page with the question filled in.
\<close>

theorem clickAskButton_guarded:
  "clickAskButton p =
     Inr (isEnabled p,
          if isEnabled p then p\<lparr>askClicks := askClicks p + 1\<rparr>
          else p\<lparr>chatConsole := chatConsole p @ [''Ask button is disabled - cannot click'']\<rparr>)
   \<and> askQuestion question p = clickAskButton (fillQuestion question p)"
  by (simp add: clickAskButton_def askButton_click_def askQuestion_def split: sum.splits)

theorem clickAskButton_guarded_witness:
  "clickAskButton (askPage True) =
     Inr (False, (askPage True)\<lparr>chatConsole := [''Ask button is disabled - cannot click'']\<rparr>)
   \<and> askQuestion ''What is the main topic?'' (askPage True) =
     Inr (True, (askPage True)\<lparr>questionValue := ''What is the main topic?'', askClicks := 1\<rparr>)"
  using clickAskButton_guarded[of "askPage True" "''What is the main topic?''"]
        clickAskButton_guarded[of "fillQuestion ''What is the main topic?'' (askPage True)" "[]"]
  by (simp add: askPage_def isEnabled_def fillQuestion_def)

section \<open>Properties of the selector loops\<close>

lemma firstVisibleOrSkip_first:
  assumes "\<forall>a\<in>set pre. isVisible pg a \<noteq> Returned True" and "isVisible pg b = Returned True"
  shows "firstVisibleOrSkip pg (pre @ b # post) asked = (Some b, asked @ pre @ [b])"
  using assms
proof (induction pre arbitrary: asked)
  case Nil
  then show ?case by simp
next
  case (Cons a pre)
  then have "isVisible pg a \<noteq> Returned True" by simp
  then have "firstVisibleOrSkip pg (a # pre @ b # post) asked
             = firstVisibleOrSkip pg (pre @ b # post) (asked @ [a])"
    by (cases "isVisible pg a") (auto split: bool.splits)
  with Cons show ?case by simp
qed

lemma firstVisible_first:
  assumes "\<forall>a\<in>set pre. isVisible pg a = Returned False" and "isVisible pg b = Returned True"
  shows "firstVisible pg (pre @ b # post) asked = (Inr (Some b), asked @ pre @ [b])"
  using assms by (induction pre arbitrary: asked) simp_all

lemma firstVisibleWithText_first:
  assumes "\<forall>a\<in>set pre. isVisible pg a = Returned False
              \<or> (isVisible pg a = Returned True \<and> \<not> buttonTextMatches (textContent pg a))"
    and "isVisible pg b = Returned True" and "buttonTextMatches (textContent pg b)"
  shows "firstVisibleWithText pg (pre @ b # post) asked = (Inr (Some b), asked @ pre @ [b])"
  using assms
proof (induction pre arbitrary: asked)
  case Nil
  then show ?case by simp
next
  case (Cons a pre)
  then have "firstVisibleWithText pg (a # pre @ b # post) asked
             = firstVisibleWithText pg (pre @ b # post) (asked @ [a])"
    by auto
  with Cons show ?case by simp
qed

text \<open>
  Claim C5, as the code has it. Every selector loop returns the first candidate it accepts
  and asks about no candidate after it. \<open>getAssistantAnswer\<close> and the first round of
  \<open>loadSampleData\<close> accept a candidate that is visible; the second round of
  \<open>loadSampleData\<close> accepts a candidate that is visible and whose text matches
  \<open>/sample|load|data/i\<close>, and passes over a visible candidate whose text does not.
\<close>

theorem resolution_returns_first_accepted:
  "((\<forall>a\<in>set pre. isVisible pg a \<noteq> Returned True) \<and> isVisible pg b = Returned True \<longrightarrow>
      firstVisibleOrSkip pg (pre @ b # post) asked = (Some b, asked @ pre @ [b]))
   \<and> ((\<forall>a\<in>set pre. isVisible pg a = Returned False) \<and> isVisible pg b = Returned True \<longrightarrow>
      firstVisible pg (pre @ b # post) asked = (Inr (Some b), asked @ pre @ [b]))
   \<and> ((\<forall>a\<in>set pre. isVisible pg a = Returned False
              \<or> (isVisible pg a = Returned True \<and> \<not> buttonTextMatches (textContent pg a)))
        \<and> isVisible pg b = Returned True \<and> buttonTextMatches (textContent pg b) \<longrightarrow>
      firstVisibleWithText pg (pre @ b # post) asked = (Inr (Some b), asked @ pre @ [b]))"
  using firstVisibleOrSkip_first[of pre pg b post asked] firstVisible_first[of pre pg b post asked]
    firstVisibleWithText_first[of pre pg b post asked]
  by blast

lemma text_eval: "buttonTextMatches (Some ''Load'')" "\<not> buttonTextMatches (Some ''Demo'')"
  by code_simp+

theorem resolution_returns_first_accepted_witness:
  "firstVisibleOrSkip (pageShowing [(''#b'', ''Load''), (''#c'', ''Load'')]) [''#a'', ''#b'', ''#c''] []
      = (Some ''#b'', [''#a'', ''#b''])
   \<and> firstVisible (pageShowing [(''#b'', ''Load''), (''#c'', ''Load'')]) [''#a'', ''#b'', ''#c''] []
      = (Inr (Some ''#b''), [''#a'', ''#b''])
   \<and> firstVisibleWithText (pageShowing [(''#b'', ''Load''), (''#c'', ''Load'')]) [''#a'', ''#b'', ''#c''] []
      = (Inr (Some ''#b''), [''#a'', ''#b''])"
  using resolution_returns_first_accepted
    [of "[''#a'']" "pageShowing [(''#b'', ''Load''), (''#c'', ''Load'')]" "''#b''" "[''#c'']" "[]"]
  by (simp add: pageShowing_def text_eval)

text \<open>
  The claim as stated fails in the second round: of the candidates A (absent), B (visible,
  text \<open>Demo\<close>) and C (visible, text \<open>Load\<close>) it returns C. So does \<open>loadSampleData\<close> on a
  page where the element with \<open>data-testid*="sample"\<close> is visible with the text \<open>Demo\<close>.
\<close>

theorem visible_candidate_skipped_counterexample:
  "isVisible (pageShowing [(''#b'', ''Demo''), (''#c'', ''Load'')]) ''#a'' = Returned False
   \<and> isVisible (pageShowing [(''#b'', ''Demo''), (''#c'', ''Load'')]) ''#b'' = Returned True
   \<and> isVisible (pageShowing [(''#b'', ''Demo''), (''#c'', ''Load'')]) ''#c'' = Returned True
   \<and> firstVisibleWithText (pageShowing [(''#b'', ''Demo''), (''#c'', ''Load'')]) [''#a'', ''#b'', ''#c''] []
      = (Inr (Some ''#c''), [''#a'', ''#b'', ''#c''])
   \<and> isVisible (pageShowing [(''[data-testid*='' @ quoted ''sample'' @ '']'', ''Demo''),
                              (''[class*='' @ quoted ''load'' @ '']'', ''Load'')])
        (''[data-testid*='' @ quoted ''sample'' @ '']'') = Returned True
   \<and> fst (findLoadSampleDataButton
        (pageShowing [(''[data-testid*='' @ quoted ''sample'' @ '']'', ''Demo''),
                      (''[class*='' @ quoted ''load'' @ '']'', ''Load'')]))
      = Inr (First (''[class*='' @ quoted ''load'' @ '']''))"
  by (simp add: pageShowing_def text_eval findLoadSampleDataButton_def exactMatches_def
      buttonSelectors_def quoted_def)

section \<open>Properties of the dialog listener\<close>

lemma listeners_clearIndex_pow:
  "listeners ((clearIndex ^^ n) s) = listeners s @ replicate n LogAndAccept"
proof (induction n)
  case 0 show ?case by simp
next
  case (Suc n)
  then show ?case
    by (simp add: clearIndex_def clearButton_click_def page_on_dialog_def emitDialog_def
        replicate_append_same split: option.splits)
qed

lemma accepts_of_listeners:
  "length (filter (\<lambda>a. a = Accept) (concat (replicate n [Logged x, Accept]))) = n"
  by (induction n) simp_all

lemma clearPrompt_clearIndex_pow: "clearPrompt ((clearIndex ^^ n) s) = clearPrompt s"
  by (induction n)
     (simp_all add: clearIndex_def clearButton_click_def page_on_dialog_def emitDialog_def split: option.splits)

text \<open>
  Claim C6, as the code has it. Every call of \<open>clearIndex\<close> registers one more listener on
  the page, and a prompt is accepted once by every listener registered when it is raised:
  the prompt of the \<open>k\<close>-th call of \<open>clearIndex\<close> on a page gets \<open>k\<close> calls of
  \<open>accept\<close>. A prompt gets exactly one only while \<open>clearIndex\<close> has run once on the page.
\<close>

theorem accepts_grow_with_registrations:
  "acceptsPerPrompt ((clearIndex ^^ n) (newPage (Some message))) = [1..<Suc n]"
proof (induction n)
  case 0 show ?case by (simp add: acceptsPerPrompt_def newPage_def)
next
  case (Suc n)
  let ?s = "(clearIndex ^^ n) (newPage (Some message))"
  have l: "listeners ?s = replicate n LogAndAccept"
    by (simp add: listeners_clearIndex_pow newPage_def)
  have p: "clearPrompt ?s = Some message"
    by (simp add: clearPrompt_clearIndex_pow newPage_def)
  have "acceptsPerPrompt (clearIndex ?s) = acceptsPerPrompt ?s @ [Suc n]"
    by (simp add: clearIndex_def clearButton_click_def page_on_dialog_def emitDialog_def p l
        acceptsPerPrompt_def accepts_of_listeners)
  with Suc show ?case by simp
qed

theorem accepts_grow_with_registrations_witness:
  "acceptsPerPrompt ((clearIndex ^^ 3) (newPage (Some ''Clear all data?''))) = [1, 2, 3]"
  using accepts_grow_with_registrations[of 3 "''Clear all data?''"]
  by (simp add: upt_conv_Cons del: upt_Suc)

text \<open>
  The claim as stated fails at the second call: its prompt is accepted twice.
\<close>

theorem second_registration_counterexample:
  "acceptsPerPrompt (clearIndex (clearIndex (newPage (Some ''Clear all data?'')))) = [1, 2]"
  by (simp add: acceptsPerPrompt_def clearIndex_def clearButton_click_def page_on_dialog_def
      emitDialog_def newPage_def)

section \<open>Properties of TC004\<close>

lemma recover_failureCount: "failureCount (snd (recover run st)) = failureCount st"
  by (simp add: recover_def split: awaited.splits)

lemma tryBody_failureCount: "failureCount st \<le> failureCount (snd (tryBody run v notLast st))"
  by (simp add: tryBody_def recordVerdict_def split: awaited.splits sum.splits)

lemma testModel_failureCount: "failureCount st \<le> failureCount (snd (testModel run v notLast st))"
proof (cases "tryBody run v notLast st")
  case (Pair r st1)
  have le: "failureCount st \<le> failureCount st1"
    using tryBody_failureCount[of st run v notLast] Pair by simp
  show ?thesis
  proof (cases r)
    case None
    with Pair le show ?thesis by (simp add: testModel_def)
  next
    case (Some message)
    with Pair le show ?thesis
      by (simp add: testModel_def catchBlock_def recover_failureCount)
  qed
qed

lemma testModels_failureCount: "failureCount st \<le> failureCount (testModels models st)"
proof (induction models arbitrary: st)
  case Nil
  show ?case by simp
next
  case (Cons m models)
  obtain v run where m: "m = (v, run)" by (cases m)
  obtain go st1 where t: "testModel run v (models \<noteq> []) st = (go, st1)"
    by (cases "testModel run v (models \<noteq> []) st")
  have le: "failureCount st \<le> failureCount st1"
    using testModel_failureCount[of st run v "models \<noteq> []"] t by simp
  show ?case
  proof (cases go)
    case True
    with t m le Cons.IH[of st1] show ?thesis by simp
  next
    case False
    with t m le show ?thesis by simp
  qed
qed

lemma not_recoverable_example: "\<not> isRecoverable ''Error: option not found''"
  by code_simp

lemma recoverable_example:
  "isRecoverable ''locator.selectOption: Error: Element is not a <select> element''"
  by code_simp

lemma confirm_first: "confirmation run (Suc 0) = Returned True \<Longrightarrow> confirmLoop run (Suc 0) = Inr True"
  by (subst confirmLoop.simps) simp

text \<open>
  Claim C8, as the code has it. The recoverable class of TC004 is a test on the message of
  the error: it contains \<open>Target page, context or browser has been closed\<close>,
  \<open>Test timeout\<close>, \<open>page.waitForTimeout\<close> or \<open>locator.selectOption\<close>. When the
  selection of a model raises an error outside this class, from \<open>selectOption\<close> or from
  the wait between two looks for the confirmation, the model is counted as failed and not as
  successful, \<open>selectOption\<close> has been called once for it, and neither a reload nor a new
  lookup of the selector happens. The error is not passed on: it is written to the console,
  the loop goes on with the models that are left, and the test fails after the loop with an
  error that carries the counts only. When the error comes from the wait before the next
  model, the verdict on the selection is already counted, and the model is counted once more,
  as failed.
\<close>

theorem unrecoverable_error_outcome:
  assumes "\<not> isRecoverable message"
  shows
  "(selectOption run = Raised message
      \<or> (selectOption run = Returned () \<and> confirmLoop run 1 = Inl message) \<longrightarrow>
      testModel run v notLast st =
        (True, st\<lparr>failureCount := failureCount st + 1,
                  events := events st @ [SelectOption v, ErrorTestingModel v message]\<rparr>)
      \<and> testModels ((v, run) # rest) st =
          testModels rest
            (st\<lparr>failureCount := failureCount st + 1,
                events := events st @ [SelectOption v, ErrorTestingModel v message]\<rparr>)
      \<and> tc004_selectModels ((v, run) # rest) =
          (let fin = testModels rest
                 \<lparr>successCount = 0, failureCount = 1,
                  events = [SelectOption v, ErrorTestingModel v message]\<rparr>
           in (Inl (NotFullySuccessful (successCount fin) (Suc (length rest)) (failureCount fin)),
               fin)))
   \<and> (selectOption run = Returned () \<and> confirmLoop run 1 = Inr seen
        \<and> switchDelay run = Raised message \<longrightarrow>
      testModel run v True st =
        (True,
         if seen \<or> fallbackConfirms run v
         then st\<lparr>successCount := successCount st + 1, failureCount := failureCount st + 1,
                 events := events st @ [SelectOption v, ErrorTestingModel v message]\<rparr>
         else st\<lparr>failureCount := failureCount st + 2,
                 events := events st
                   @ [SelectOption v, ConfirmationNotFound v, ErrorTestingModel v message]\<rparr>))"
proof (intro conjI impI)
  assume raised: "selectOption run = Raised message
      \<or> (selectOption run = Returned () \<and> confirmLoop run 1 = Inl message)"
  show one: "testModel run v notLast st =
        (True, st\<lparr>failureCount := failureCount st + 1,
                  events := events st @ [SelectOption v, ErrorTestingModel v message]\<rparr>)"
    for notLast st
    using raised assms by (auto simp: testModel_def tryBody_def catchBlock_def)
  show "testModels ((v, run) # rest) st =
          testModels rest
            (st\<lparr>failureCount := failureCount st + 1,
                events := events st @ [SelectOption v, ErrorTestingModel v message]\<rparr>)"
    by (simp add: one)
  let ?st1 = "\<lparr>successCount = 0, failureCount = 1,
                events = [SelectOption v, ErrorTestingModel v message]\<rparr>"
  have "failureCount ?st1 \<le> failureCount (testModels rest ?st1)"
    by (rule testModels_failureCount)
  then have "0 < failureCount (testModels rest ?st1)" by simp
  then show "tc004_selectModels ((v, run) # rest) =
          (let fin = testModels rest ?st1
           in (Inl (NotFullySuccessful (successCount fin) (Suc (length rest)) (failureCount fin)),
               fin))"
    by (simp add: tc004_selectModels_def one Let_def)
next
  assume "selectOption run = Returned () \<and> confirmLoop run 1 = Inr seen
        \<and> switchDelay run = Raised message"
  then show "testModel run v True st =
        (True,
         if seen \<or> fallbackConfirms run v
         then st\<lparr>successCount := successCount st + 1, failureCount := failureCount st + 1,
                 events := events st @ [SelectOption v, ErrorTestingModel v message]\<rparr>
         else st\<lparr>failureCount := failureCount st + 2,
                 events := events st
                   @ [SelectOption v, ConfirmationNotFound v, ErrorTestingModel v message]\<rparr>)"
    using assms by (simp add: testModel_def tryBody_def catchBlock_def recordVerdict_def)
qed

lemma selectSucceeds_last:
  "testModel selectSucceeds v False st =
     (True, st\<lparr>successCount := successCount st + 1, events := events st @ [SelectOption v]\<rparr>)"
proof -
  have "confirmLoop selectSucceeds (Suc 0) = Inr True"
    by (rule confirm_first) (simp add: selectSucceeds_def)
  then show ?thesis
    by (simp add: testModel_def tryBody_def recordVerdict_def selectSucceeds_def)
qed

theorem unrecoverable_error_outcome_witness:
  "tc004_selectModels
      [(''llama3:8b'', selectRaises ''Error: option not found''), (''mistral:7b'', selectSucceeds)]
     = (Inl (NotFullySuccessful 1 2 1),
        \<lparr>successCount = 1, failureCount = 1,
          events = [SelectOption ''llama3:8b'',
                    ErrorTestingModel ''llama3:8b'' ''Error: option not found'',
                    SelectOption ''mistral:7b'']\<rparr>)
   \<and> testModel (delayRaises ''Error: option not found'') ''llama3:8b'' True
        \<lparr>successCount = 0, failureCount = 0, events = []\<rparr>
     = (True, \<lparr>successCount = 1, failureCount = 1,
               events = [SelectOption ''llama3:8b'',
                         ErrorTestingModel ''llama3:8b'' ''Error: option not found'']\<rparr>)"
proof -
  have a: "selectOption (selectRaises ''Error: option not found'') = Raised ''Error: option not found''
           \<or> (selectOption (selectRaises ''Error: option not found'') = Returned ()
               \<and> confirmLoop (selectRaises ''Error: option not found'') 1 = Inl ''Error: option not found'')"
    by (simp add: selectRaises_def)
  have c: "confirmLoop (delayRaises ''Error: option not found'') (Suc 0) = Inr True"
    by (rule confirm_first) (simp add: delayRaises_def selectSucceeds_def)
  have b: "selectOption (delayRaises ''Error: option not found'') = Returned ()
           \<and> confirmLoop (delayRaises ''Error: option not found'') 1 = Inr True
           \<and> switchDelay (delayRaises ''Error: option not found'') = Raised ''Error: option not found''"
    using c by (simp add: delayRaises_def selectSucceeds_def)
  note t1 = unrecoverable_error_outcome[OF not_recoverable_example,
      of "selectRaises ''Error: option not found''" "''llama3:8b''" True
         "\<lparr>successCount = 0, failureCount = 0, events = []\<rparr>" "[(''mistral:7b'', selectSucceeds)]" True]
  note t2 = unrecoverable_error_outcome[OF not_recoverable_example,
      of "delayRaises ''Error: option not found''" "''llama3:8b''" True
         "\<lparr>successCount = 0, failureCount = 0, events = []\<rparr>" "[]" True]
  from t1[THEN conjunct1, THEN mp, OF a] have "tc004_selectModels
      [(''llama3:8b'', selectRaises ''Error: option not found''), (''mistral:7b'', selectSucceeds)]
     = (Inl (NotFullySuccessful 1 2 1),
        \<lparr>successCount = 1, failureCount = 1,
          events = [SelectOption ''llama3:8b'',
                    ErrorTestingModel ''llama3:8b'' ''Error: option not found'',
                    SelectOption ''mistral:7b'']\<rparr>)"
    by (simp add: selectSucceeds_last Let_def numeral_2_eq_2)
  moreover from t2[THEN conjunct2, THEN mp, OF b] have "testModel (delayRaises ''Error: option not found'') ''llama3:8b'' True
        \<lparr>successCount = 0, failureCount = 0, events = []\<rparr>
     = (True, \<lparr>successCount = 1, failureCount = 1,
               events = [SelectOption ''llama3:8b'',
                         ErrorTestingModel ''llama3:8b'' ''Error: option not found'']\<rparr>)"
    by simp
  ultimately show ?thesis by simp
qed

text \<open>
  The claim as stated fails twice. An error of \<open>selectOption\<close> that is none of a destroyed
  context, a navigation timeout or a stale handle (the element is no \<open>select\<close>) is in the
  class of the code, since its message names \<open>locator.selectOption\<close>: the page is reloaded
  and the selector looked up again. And an error outside the class of the code is not
  surfaced: after it the next model is selected, and the error that ends the test does not
  carry it.
\<close>

theorem tc004_error_handling_counterexample:
  "testModel (selectRaises ''locator.selectOption: Error: Element is not a <select> element'')
      ''a'' True \<lparr>successCount = 0, failureCount = 0, events = []\<rparr>
     = (True, \<lparr>successCount = 0, failureCount = 1,
               events = [SelectOption ''a'',
                         ErrorTestingModel ''a''
                           ''locator.selectOption: Error: Element is not a <select> element'',
                         Reload, ReacquireSelector]\<rparr>)
   \<and> tc004_selectModels [(''a'', selectRaises ''Error: option not found''), (''b'', selectSucceeds)]
     = (Inl (NotFullySuccessful 1 2 1),
        \<lparr>successCount = 1, failureCount = 1,
          events = [SelectOption ''a'', ErrorTestingModel ''a'' ''Error: option not found'',
                    SelectOption ''b'']\<rparr>)"
proof -
  have one: "testModel (selectRaises ''Error: option not found'') ''a'' True st =
     (True, st\<lparr>failureCount := failureCount st + 1,
               events := events st @ [SelectOption ''a'',
                 ErrorTestingModel ''a'' ''Error: option not found'']\<rparr>)" for st
    by (simp add: testModel_def tryBody_def catchBlock_def selectRaises_def not_recoverable_example)
  show ?thesis
    by (simp add: tc004_selectModels_def one selectSucceeds_last)
       (simp add: testModel_def tryBody_def catchBlock_def recover_def selectRaises_def
          recoverable_example)
qed

end
